theory Spec2Isabelle
  imports Complex_Main
begin

section \<open>Values\<close>

text \<open>
  A JavaScript Number is modelled by the decimal value it was read from, or by NaN:
  \<open>Num q\<close> stands for the Number value of the rational \<open>q\<close> (the double nearest
  to \<open>q\<close>); for a parsed price that rounding is not computed. The only negative Number
  the script ever builds is the literal \<open>-1\<close>.
\<close>

datatype number = Num rat | NaN

text \<open>
  Strings are lists of 8-bit characters. What a cell of the sheet holds: nothing, a
  string, or a Number; \<open>setValue\<close> and \<open>setValues\<close> store whatever Number they are
  given, NaN included.
\<close>

datatype cell = Blank | Text string | Numeric number

text \<open>
  The two ways the script can leave a function by an exception that nothing catches:
  reading \<open>[0]\<close> of \<open>null\<close> (a TypeError), and asking the sheet for a range of fewer
  than one row.
\<close>

datatype error = TypeError | RangeException

section \<open>Text extraction (second half of lookupQuote)\<close>

definition dquote :: char where
  "dquote = CHR 0x22"

text \<open>The literal parts of regex 1: \<^verbatim>\<open><span class="Trsdu\<close> and \<^verbatim>\<open></span>\<close>.\<close>

definition span_open :: string where
  "span_open = ''<span class='' @ [dquote] @ ''Trsdu''"

definition span_close :: string where
  "span_close = ''</span>''"

fun startsWith :: "string \<Rightarrow> string \<Rightarrow> bool" where
  "startsWith s [] = True"
| "startsWith [] (p # ps) = False"
| "startsWith (c # cs) (p # ps) = (c = p \<and> startsWith cs ps)"

text \<open>
  The regex has no flags, so \<open>.\<close> matches every character except a line terminator
  (line feed and carriage return among 8-bit characters).
\<close>

definition lineTerminator :: "char \<Rightarrow> bool" where
  "lineTerminator c = (c = CHR 0x0A \<or> c = CHR 0x0D)"

text \<open>
  The lazy group \<open>(.*?)\<close> followed by \<^verbatim>\<open></span>\<close>: try the closing tag here first,
  and only when it does not match consume one more character that \<open>.\<close> accepts. The
  result is the text of the lazy group.
\<close>

fun lazyUntilClose :: "string \<Rightarrow> string option" where
  "lazyUntilClose [] = None"
| "lazyUntilClose (c # cs) =
     (if startsWith (c # cs) span_close then Some []
      else if lineTerminator c then None
      else map_option (\<lambda>m. c # m) (lazyUntilClose cs))"

text \<open>Regex 1 anchored at the start of the string: the whole match, \<open>initMatch[0]\<close>.\<close>

definition regex1_here :: "string \<Rightarrow> string option" where
  "regex1_here s =
     (if startsWith s span_open
      then map_option (\<lambda>m. span_open @ m @ span_close)
             (lazyUntilClose (drop (length span_open) s))
      else None)"

text \<open>\<open>exec\<close> tries each start position from the left; \<open>None\<close> is \<open>null\<close>.\<close>

fun regex1_exec :: "string \<Rightarrow> string option" where
  "regex1_exec [] = None"
| "regex1_exec (c # cs) =
     (case regex1_here (c # cs) of
        Some m \<Rightarrow> Some m
      | None \<Rightarrow> regex1_exec cs)"

text \<open>The character class \<^verbatim>\<open>[\d\.\,]\<close>.\<close>

definition isDigit :: "char \<Rightarrow> bool" where
  "isDigit c = (c \<in> set ''0123456789'')"

definition numChar :: "char \<Rightarrow> bool" where
  "numChar c = (isDigit c \<or> c = CHR ''.'' \<or> c = CHR '','')"

text \<open>
  Regex 2 anchored at the start: \<open>>\<close>, a greedy run of the class,
  \<open><\<close>. The closing \<open><\<close> is not in the class, so giving characters back never
  helps: the run is the longest one.
\<close>

definition regex2_here :: "string \<Rightarrow> string option" where
  "regex2_here s =
     (case s of
        [] \<Rightarrow> None
      | c # cs \<Rightarrow>
          if c = CHR ''>'' then
            (case dropWhile numChar cs of
               [] \<Rightarrow> None
             | d # ds \<Rightarrow>
                 if d = CHR ''<'' then Some (''>'' @ takeWhile numChar cs @ ''<'')
                 else None)
          else None)"

fun regex2_exec :: "string \<Rightarrow> string option" where
  "regex2_exec [] = None"
| "regex2_exec (c # cs) =
     (case regex2_here (c # cs) of
        Some m \<Rightarrow> Some m
      | None \<Rightarrow> regex2_exec cs)"

text \<open>
  \<open>String.prototype.replace\<close> with a one-character string pattern and the empty
  replacement: only the first occurrence goes.
\<close>

fun replace_first :: "char \<Rightarrow> string \<Rightarrow> string" where
  "replace_first p [] = []"
| "replace_first p (c # cs) = (if c = p then cs else c # replace_first p cs)"

text \<open>The value of a decimal digit: its place among the ten digits.\<close>

definition digitVal :: "char \<Rightarrow> nat" where
  "digitVal c = length (takeWhile (\<lambda>d. d \<noteq> c) ''0123456789'')"

definition digitsVal :: "string \<Rightarrow> nat" where
  "digitsVal ds = foldl (\<lambda>a c. 10 * a + digitVal c) 0 ds"

text \<open>
  \<open>parseFloat\<close> on a string of digits, periods and commas (the only strings the script
  hands it here; see \<open>cleaned_chars\<close>): the longest prefix that is a decimal literal,
  that is digits, optionally a period and more digits, or a period and digits. No such
  prefix gives NaN. The sign, exponent and \<open>Infinity\<close> forms need characters outside
  this alphabet.
\<close>

definition parseFloat :: "string \<Rightarrow> number" where
  "parseFloat s =
     (let ip = takeWhile isDigit s in
      case dropWhile isDigit s of
        [] \<Rightarrow> if ip = [] then NaN else Num (of_nat (digitsVal ip))
      | c # r \<Rightarrow>
          if c = CHR ''.'' then
            (let fp = takeWhile isDigit r in
             if ip = [] \<and> fp = [] then NaN
             else Num (of_nat (digitsVal ip) + of_nat (digitsVal fp) / 10 ^ length fp))
          else if ip = [] then NaN else Num (of_nat (digitsVal ip)))"

text \<open>
  The part of lookupQuote after the page is loaded (from \<open>getContentText\<close> to the
  \<open>return\<close>). \<open>initMatch[0]\<close> and
  \<open>exec(...)[0]\<close> on \<open>null\<close> throw a TypeError, outside the \<open>try\<close> block.
\<close>

definition cleanMatch :: "string \<Rightarrow> string" where
  "cleanMatch finalMatch =
     replace_first (CHR '','') (replace_first (CHR ''>'') (replace_first (CHR ''<'') finalMatch))"

definition parsePage :: "string \<Rightarrow> error + number" where
  "parsePage html =
     (case regex1_exec html of
        None \<Rightarrow> Inl TypeError
      | Some initMatch \<Rightarrow>
          (case regex2_exec initMatch of
             None \<Rightarrow> Inl TypeError
           | Some finalMatch \<Rightarrow> Inr (parseFloat (cleanMatch finalMatch))))"

section \<open>The world outside the script\<close>

text \<open>
  What one call of \<open>UrlFetchApp.fetch\<close> can do with \<open>muteHttpExceptions\<close> set: hand
  back a response (status code and body), whatever the status, or throw.
\<close>

datatype fetch_result = Response int string | TransportError

text \<open>
  The accesses to the sheet and to the network, in the order they happen. A range is
  named by its first cell: \<open>ReadAt row column\<close>, \<open>WriteAt row column\<close>, \<open>Fetch url\<close>.
\<close>

datatype event = ReadAt nat nat | WriteAt nat nat | Fetch string

text \<open>
  The sheet "buffer" and the services the script calls.
  \<^item> \<open>K1\<close> is \<open>parseInt(sheet.getRange(1, 11).getValue())\<close>, \<open>None\<close> for NaN;
    \<open>K2\<close> is the cell of the timestamp.
  \<^item> \<open>colA r\<close> and \<open>colD r\<close> are \<open>String(...)\<close> of what row \<open>r\<close> holds in columns 1
    and 4 (symbol and exchange); \<open>colF\<close> and \<open>colG\<close> are columns 6 and 7
    (new\_price and buffered\_price). Rows are numbered as in the sheet, from 1.
  \<^item> \<open>random_values i\<close> is the exact value of the double that the \<open>i\<close>-th call of
    \<open>Math.random()\<close> returns, and
    \<open>fetch_results i url\<close> what the \<open>i\<close>-th call of \<open>UrlFetchApp.fetch\<close> does when
    it is asked for \<open>url\<close>; the two counters say how many calls were made so far.
  \<^item> \<open>time_string\<close> and \<open>date_string\<close> are \<open>toLocaleTimeString()\<close> and
    \<open>toLocaleDateString()\<close> of the clock.
\<close>

record world =
  K1 :: "int option"
  K2 :: cell
  colA :: "nat \<Rightarrow> string"
  colD :: "nat \<Rightarrow> string"
  colF :: "nat \<Rightarrow> cell"
  colG :: "nat \<Rightarrow> cell"
  random_values :: "nat \<Rightarrow> rat"
  random_calls :: nat
  fetch_results :: "nat \<Rightarrow> string \<Rightarrow> fetch_result"
  fetch_calls :: nat
  time_string :: string
  date_string :: string
  trace :: "event list"

definition logEvent :: "event \<Rightarrow> world \<Rightarrow> world" where
  "logEvent e w = w\<lparr>trace := trace w @ [e]\<rparr>"

definition Math_random :: "world \<Rightarrow> rat \<times> world" where
  "Math_random w = (random_values w (random_calls w), w\<lparr>random_calls := Suc (random_calls w)\<rparr>)"

definition UrlFetchApp_fetch :: "string \<Rightarrow> world \<Rightarrow> fetch_result \<times> world" where
  "UrlFetchApp_fetch url w =
     (fetch_results w (fetch_calls w) url,
      logEvent (Fetch url) (w\<lparr>fetch_calls := Suc (fetch_calls w)\<rparr>))"

section \<open>getTimeNow\<close>

definition getTimeNow :: "world \<Rightarrow> string" where
  "getTimeNow w = time_string w @ '' '' @ date_string w"

section \<open>URLFromExchange\<close>

text \<open>An integer joined to a string by \<open>+\<close>: its decimal digits, with a sign if negative.\<close>

fun natToString :: "nat \<Rightarrow> string" where
  "natToString n =
     (if n < 10 then [''0123456789'' ! n]
      else natToString (n div 10) @ [''0123456789'' ! (n mod 10)])"

declare natToString.simps [simp del]

definition intToString :: "int \<Rightarrow> string" where
  "intToString i = (if i < 0 then ''-'' @ natToString (nat (- i)) else natToString (nat i))"

text \<open>
  \<open>Math.random()*1000\<close> is a product of doubles: the exact product rounded to the
  nearest double, ties to the even significand. A double is named by its exact value, a
  rational. \<open>binade q\<close> is the binary exponent of a positive \<open>q\<close> (\<open>2 ^ e \<le> q < 2 ^ (e + 1)\<close>),
  a double has 53 significant bits and no exponent below \<open>-1022\<close>; overflow to
  \<open>Infinity\<close> is left out, the products here are below 1000.
\<close>

definition roundHalfEven :: "rat \<Rightarrow> int" where
  "roundHalfEven x =
     (let f = \<lfloor>x\<rfloor>; d = x - of_int f
      in if d < 1 / 2 then f else if 1 / 2 < d then f + 1 else if even f then f else f + 1)"

function binade :: "rat \<Rightarrow> int" where
  "binade q =
     (if q \<le> 0 then 0
      else if 2 \<le> q then binade (q / 2) + 1
      else if q < 1 then binade (q * 2) - 1
      else 0)"
  by pat_completeness auto
termination
proof (relation "measure (\<lambda>q. if 1 \<le> q then nat \<lfloor>q\<rfloor> else nat \<lfloor>1 / q\<rfloor> + 1)")
  show "wf (measure (\<lambda>q::rat. if 1 \<le> q then nat \<lfloor>q\<rfloor> else nat \<lfloor>1 / q\<rfloor> + 1))" by simp
next
  fix q :: rat
  assume "\<not> q \<le> 0" "2 \<le> q"
  then have "q / 2 \<le> q - 1" by simp
  then have "\<lfloor>q / 2\<rfloor> \<le> \<lfloor>q - 1\<rfloor>" by (rule floor_mono)
  then have "\<lfloor>q / 2\<rfloor> < \<lfloor>q\<rfloor>" by simp
  moreover have "0 \<le> \<lfloor>q / 2\<rfloor>" using \<open>2 \<le> q\<close> by simp
  ultimately show "(q / 2, q) \<in> measure (\<lambda>q. if 1 \<le> q then nat \<lfloor>q\<rfloor> else nat \<lfloor>1 / q\<rfloor> + 1)"
    using \<open>2 \<le> q\<close> by simp
next
  fix q :: rat
  assume q: "\<not> q \<le> 0" "\<not> 2 \<le> q" "q < 1"
  then have big: "1 < 1 / q" by simp
  then have one: "1 \<le> \<lfloor>1 / q\<rfloor>" by simp
  show "(q * 2, q) \<in> measure (\<lambda>q. if 1 \<le> q then nat \<lfloor>q\<rfloor> else nat \<lfloor>1 / q\<rfloor> + 1)"
  proof (cases "1 \<le> q * 2")
    case True
    from q have "q * 2 < 2" by simp
    with True have "\<lfloor>q * 2\<rfloor> = 1" by (simp add: floor_unique)
    with True q one show ?thesis by simp
  next
    case False
    with q have "2 \<le> 1 / q" by (simp add: field_simps)
    then have "(1 / q) / 2 \<le> 1 / q - 1" by simp
    then have "\<lfloor>(1 / q) / 2\<rfloor> \<le> \<lfloor>1 / q - 1\<rfloor>" by (rule floor_mono)
    then have lt: "\<lfloor>1 / (q * 2)\<rfloor> < \<lfloor>1 / q\<rfloor>" by (simp add: field_simps)
    with False q one show ?thesis by simp
  qed
qed

declare binade.simps [simp del]

definition toDouble :: "rat \<Rightarrow> rat" where
  "toDouble q =
     (if q = 0 then 0
      else (let e = max (binade \<bar>q\<bar>) (- 1022);
                u = 2 powi (e - 52)
            in sgn q * of_int (roundHalfEven (\<bar>q\<bar> / u)) * u))"

text \<open>The rationals that are doubles: rounding leaves them as they are.\<close>

definition isDouble :: "rat \<Rightarrow> bool" where
  "isDouble q = (toDouble q = q)"

definition URLFromExchange :: "string \<Rightarrow> string \<Rightarrow> world \<Rightarrow> string \<times> world" where
  "URLFromExchange symbol exchange w =
     (let suffix =
            (if exchange = ''USA'' then []
             else if exchange = ''SGX'' then ''.SI''
             else if exchange = ''HKEX'' then ''.HK''
             else if exchange = ''XSSC'' then ''.SS''
             else []);
          (r, w') = Math_random w
      in (''https://finance.yahoo.com/quote/'' @ symbol @ suffix @ ''?p=''
            @ intToString (floor (toDouble (r * 1000))), w'))"

section \<open>lookupQuote\<close>

text \<open>
  The \<open>for\<close> loop of the three attempts, entered with \<open>n < 3\<close>. It ends with the page
  of the last attempt made, or with the exception the attempt threw.
\<close>

function attemptLoop :: "nat \<Rightarrow> string \<Rightarrow> world \<Rightarrow> fetch_result \<times> world" where
  "attemptLoop n url w =
     (case UrlFetchApp_fetch url w of
        (TransportError, w') \<Rightarrow> (TransportError, w')
      | (Response code body, w') \<Rightarrow>
          if code = 200 then (Response code body, w')
          else if n + 1 < 3 then attemptLoop (n + 1) url w'
          else (Response code body, w'))"
  by pat_completeness auto
termination
  by (relation "measure (\<lambda>(n, url, w). 3 - n)") auto

declare attemptLoop.simps [simp del]

text \<open>
  The \<open>catch\<close> block returns \<open>-1\<close> for an exception of \<open>fetch\<close> and for the string
  thrown when the last page is not a 200. Everything after it runs unprotected.
\<close>

definition lookupQuote :: "string \<Rightarrow> string \<Rightarrow> world \<Rightarrow> (error + number) \<times> world" where
  "lookupQuote symbol url w =
     (case attemptLoop 0 url w of
        (TransportError, w') \<Rightarrow> (Inr (Num (- 1)), w')
      | (Response code html, w') \<Rightarrow>
          if code \<noteq> 200 then (Inr (Num (- 1)), w')
          else (parsePage html, w'))"

section \<open>updateMasterList\<close>

text \<open>
  \<open>getRange(2, column, lastrow-1, 1)\<close> throws unless the number of rows is at least 1.
\<close>

definition numRows :: "int option \<Rightarrow> error + nat" where
  "numRows lastrow =
     (case lastrow of
        None \<Rightarrow> Inl RangeException
      | Some l \<Rightarrow> if l - 1 < 1 then Inl RangeException else Inr (nat (l - 1)))"

text \<open>The body of the loop of subsection D1, for one row.\<close>

definition lookupRow :: "string \<times> string \<Rightarrow> world \<Rightarrow> (error + number) \<times> world" where
  "lookupRow row w =
     (let current_symbol = fst row;
          current_exchange = snd row;
          (url, w') = URLFromExchange current_symbol current_exchange w
      in lookupQuote current_symbol url w')"

text \<open>Subsection D1: the rows in order; an exception ends the loop and the run.\<close>

fun loopD1 :: "(string \<times> string) list \<Rightarrow> world \<Rightarrow> (error + number list) \<times> world" where
  "loopD1 [] w = (Inr [], w)"
| "loopD1 (row # rows) w =
     (case lookupRow row w of
        (Inl e, w') \<Rightarrow> (Inl e, w')
      | (Inr quote, w') \<Rightarrow>
          (case loopD1 rows w' of
             (Inl e, w'') \<Rightarrow> (Inl e, w'')
           | (Inr prices, w'') \<Rightarrow> (Inr (quote # prices), w'')))"

text \<open>
  \<open>setValues(prices)\<close> on a column from row \<open>r\<close>: one value for each row, downwards.
\<close>

fun setValues :: "nat \<Rightarrow> number list \<Rightarrow> (nat \<Rightarrow> cell) \<Rightarrow> (nat \<Rightarrow> cell)" where
  "setValues r [] col = col"
| "setValues r (p # ps) col = setValues (Suc r) ps (col(r := Numeric p))"

text \<open>
  \<open>prices[k]\<close> is the one-element array \<open>[quote]\<close>. In \<open>prices[k] != -1\<close> it is turned
  into its string and then into a Number again, which gives the quote back, and NaN
  differs from everything. \<open>parseFloat(prices[k])\<close> parses that same string, which
  gives the quote back as well.
\<close>

definition notMinusOne :: "number \<Rightarrow> bool" where
  "notMinusOne quote = (quote \<noteq> Num (- 1))"

definition parseFloat_array :: "number \<Rightarrow> number" where
  "parseFloat_array quote = quote"

text \<open>Subsection D2, second loop: \<open>k\<close> counts the rows from 0.\<close>

fun loopD2 :: "nat \<Rightarrow> number list \<Rightarrow> world \<Rightarrow> world" where
  "loopD2 k [] w = w"
| "loopD2 k (p # ps) w =
     loopD2 (Suc k) ps
       (if notMinusOne p
        then logEvent (WriteAt (2 + k) 7)
               (w\<lparr>colG := (colG w)(2 + k := Numeric (parseFloat_array p))\<rparr>)
        else w)"

text \<open>
  Sections A and B: the row count is read, then the timestamp written, then the two
  input columns read, \<open>lastrow-1\<close> rows from row 2. The result is the list of the
  pairs \<open>String(symbols[i])\<close>, \<open>String(exchange[i])\<close>.
\<close>

definition writeTimestamp :: "world \<Rightarrow> world" where
  "writeTimestamp w = logEvent (WriteAt 2 11) (w\<lparr>K2 := Text (getTimeNow w)\<rparr>)"

definition inputRows :: "world \<Rightarrow> nat \<Rightarrow> (string \<times> string) list" where
  "inputRows w n = map (\<lambda>i. (colA w (2 + i), colD w (2 + i))) [0..<n]"

definition sectionsAB :: "world \<Rightarrow> (error + (string \<times> string) list) \<times> world" where
  "sectionsAB w =
     (let lastrow = K1 w;
          w1 = writeTimestamp (logEvent (ReadAt 1 11) w)
      in case numRows lastrow of
           Inl e \<Rightarrow> (Inl e, w1)
         | Inr n \<Rightarrow> (Inr (inputRows w1 n), logEvent (ReadAt 2 4) (logEvent (ReadAt 2 1) w1)))"

text \<open>Sections A to D1: the array \<open>prices\<close>, if the run gets that far.\<close>

definition collectPrices :: "world \<Rightarrow> (error + number list) \<times> world" where
  "collectPrices w =
     (case sectionsAB w of
        (Inl e, w1) \<Rightarrow> (Inl e, w1)
      | (Inr rows, w1) \<Rightarrow> loopD1 rows w1)"

text \<open>Subsection D2: column F is written in one go, then column G row by row.\<close>

definition sectionD2 :: "number list \<Rightarrow> world \<Rightarrow> world" where
  "sectionD2 prices w =
     loopD2 0 prices (logEvent (WriteAt 2 6) (w\<lparr>colF := setValues 2 prices (colF w)\<rparr>))"

definition updateMasterList :: "world \<Rightarrow> (error + unit) \<times> world" where
  "updateMasterList w =
     (case collectPrices w of
        (Inl e, w') \<Rightarrow> (Inl e, w')
      | (Inr prices, w') \<Rightarrow> (Inr (), sectionD2 prices w'))"

section \<open>Notions used in the statements\<close>

text \<open>
  \<open>attemptOutcome url w j\<close> is what attempt number \<open>j\<close> (from 0) of a lookup started
  in \<open>w\<close> gets from the network, \<open>attemptsMade\<close> the number of calls of
  \<open>UrlFetchApp.fetch\<close> that one call of lookupQuote makes.
\<close>

definition attemptOutcome :: "string \<Rightarrow> world \<Rightarrow> nat \<Rightarrow> fetch_result" where
  "attemptOutcome url w j = fetch_results w (fetch_calls w + j) url"

definition is200 :: "fetch_result \<Rightarrow> bool" where
  "is200 r = (case r of Response code body \<Rightarrow> code = 200 | TransportError \<Rightarrow> False)"

definition otherStatus :: "fetch_result \<Rightarrow> bool" where
  "otherStatus r = (case r of Response code body \<Rightarrow> code \<noteq> 200 | TransportError \<Rightarrow> False)"

definition attemptsMade :: "string \<Rightarrow> string \<Rightarrow> world \<Rightarrow> nat" where
  "attemptsMade symbol url w = fetch_calls (snd (lookupQuote symbol url w)) - fetch_calls w"

text \<open>The world after one call of \<open>UrlFetchApp.fetch\<close>.\<close>

definition fetched :: "string \<Rightarrow> world \<Rightarrow> world" where
  "fetched url w = snd (UrlFetchApp_fetch url w)"

text \<open>
  The world in which the lookup of row \<open>k\<close> (from 0) starts, when the loop of
  subsection D1 starts in \<open>w\<close>: the lookups of the rows before it have run.
\<close>

fun worldBeforeRow :: "(string \<times> string) list \<Rightarrow> world \<Rightarrow> nat \<Rightarrow> world" where
  "worldBeforeRow rows w 0 = w"
| "worldBeforeRow [] w (Suc k) = w"
| "worldBeforeRow (row # rows) w (Suc k) = worldBeforeRow rows (snd (lookupRow row w)) k"

text \<open>
  Two relations between an earlier and a later world: the sheet is the same, and the
  later trace continues the earlier one without another write of the timestamp cell.
\<close>

definition sameSheet :: "world \<Rightarrow> world \<Rightarrow> bool" where
  "sameSheet w w' =
     (K1 w' = K1 w \<and> K2 w' = K2 w \<and> colA w' = colA w \<and> colD w' = colD w
      \<and> colF w' = colF w \<and> colG w' = colG w)"

definition laterEvents :: "world \<Rightarrow> world \<Rightarrow> bool" where
  "laterEvents w w' = (\<exists>es. trace w' = trace w @ es \<and> WriteAt 2 11 \<notin> set es)"

text \<open>The table of suffixes as the specification gives it.\<close>

definition suffixTable :: "(string \<times> string) list" where
  "suffixTable = [(''USA'', []), (''SGX'', ''.SI''), (''HKEX'', ''.HK''), (''XSSC'', ''.SS'')]"

section \<open>Example data\<close>

text \<open>
  The price element of the tutorial's page (there with the price 28.200), and a small page
  around it.
\<close>

definition priceSpan :: "string \<Rightarrow> string" where
  "priceSpan price =
     ''<span class='' @ [dquote] @ ''Trsdu(0.3s) Fw(b) Fz(36px)'' @ [dquote]
       @ '' data-reactid='' @ [dquote] @ ''14'' @ [dquote] @ ''>'' @ price @ ''</span>''"

definition tutorialSpan :: "string \<Rightarrow> string" where
  "tutorialSpan price = ''<div>'' @ priceSpan price @ ''</div>''"

text \<open>
  A sheet with two rows, 2388 on HKEX in row 2 and DIS on USA in row 3, with earlier
  buffered prices 28 and 145, and three networks: one that always answers with the same
  status and body, one that answers 500 except for the second call, and one that serves a
  page on the first call and 404 afterwards.
\<close>

definition exampleWorld :: "(nat \<Rightarrow> string \<Rightarrow> fetch_result) \<Rightarrow> world" where
  "exampleWorld net =
     \<lparr>K1 = Some 3, K2 = Blank,
      colA = (\<lambda>r. if r = 2 then ''2388'' else if r = 3 then ''DIS'' else []),
      colD = (\<lambda>r. if r = 2 then ''HKEX'' else if r = 3 then ''USA'' else []),
      colF = (\<lambda>r. Blank),
      colG = (\<lambda>r. if r = 2 then Numeric (Num 28) else if r = 3 then Numeric (Num 145) else Blank),
      random_values = (\<lambda>i. 1 / 2), random_calls = 0,
      fetch_results = net, fetch_calls = 0,
      time_string = ''9:47:59 PM'', date_string = ''1/15/2020'', trace = []\<rparr>"

definition alwaysStatus :: "int \<Rightarrow> string \<Rightarrow> nat \<Rightarrow> string \<Rightarrow> fetch_result" where
  "alwaysStatus code body i url = Response code body"

definition secondCallPage :: "string \<Rightarrow> nat \<Rightarrow> string \<Rightarrow> fetch_result" where
  "secondCallPage body i url = (if i = 1 then Response 200 body else Response 500 [])"

definition firstCallPage :: "string \<Rightarrow> nat \<Rightarrow> string \<Rightarrow> fetch_result" where
  "firstCallPage body i url = (if i = 0 then Response 200 body else Response 404 [])"

text \<open>A network that answers the calls in turn from a list, and 404 after its end.\<close>

definition scriptedNet :: "fetch_result list \<Rightarrow> nat \<Rightarrow> string \<Rightarrow> fetch_result" where
  "scriptedNet answers i url = (if i < length answers then answers ! i else Response 404 [])"

section \<open>Facts about the extraction\<close>

lemmas extract_defs = parsePage_def regex1_here_def span_open_def span_close_def dquote_def
  lineTerminator_def regex2_here_def numChar_def isDigit_def cleanMatch_def parseFloat_def
  digitsVal_def digitVal_def

text \<open>A parsed price is never negative, so it is never the value \<open>-1\<close>.\<close>

lemma parseFloat_nonneg: "parseFloat s = Num q \<Longrightarrow> 0 \<le> q"
  by (auto simp: parseFloat_def Let_def split: list.splits if_splits)

lemma parseFloat_not_sentinel: "parseFloat s \<noteq> Num (- 1)"
  using parseFloat_nonneg [of s "- 1"] by auto

lemma parsePage_not_sentinel: "parsePage html \<noteq> Inr (Num (- 1))"
  by (simp add: parsePage_def parseFloat_not_sentinel split: option.splits)

lemma parsePage_not_sent2: "(parsePage html = Inr (Num (- 1))) = False"
  by (simp add: parsePage_not_sentinel)

text \<open>
  What \<open>parseFloat\<close> is handed: the text between the brackets, digits, periods and
  commas only.
\<close>

lemma replace_first_absent: "p \<notin> set s \<Longrightarrow> replace_first p (s @ [p]) = s"
  by (induction s) auto

lemma set_replace_first: "set (replace_first p s) \<subseteq> set s"
  by (induction s) auto

lemma regex2_here_shape:
  "regex2_here s = Some f \<Longrightarrow> \<exists>run. f = ''>'' @ run @ ''<'' \<and> (\<forall>c\<in>set run. numChar c)"
  by (auto simp: regex2_here_def split: list.splits if_splits dest: set_takeWhileD)

lemma regex2_exec_shape:
  "regex2_exec s = Some f \<Longrightarrow> \<exists>run. f = ''>'' @ run @ ''<'' \<and> (\<forall>c\<in>set run. numChar c)"
proof (induction s)
  case Nil
  then show ?case by simp
next
  case (Cons c cs)
  show ?case
  proof (cases "regex2_here (c # cs)")
    case None
    with Cons show ?thesis by simp
  next
    case (Some m)
    with Cons.prems have "m = f" by simp
    with Some regex2_here_shape show ?thesis by blast
  qed
qed

lemma cleaned_chars:
  assumes "regex2_exec initMatch = Some finalMatch"
  shows "\<forall>c\<in>set (cleanMatch finalMatch). numChar c"
proof -
  from regex2_exec_shape [OF assms] obtain run where
    f: "finalMatch = ''>'' @ run @ ''<''" and run: "\<forall>c\<in>set run. numChar c" by blast
  have "\<not> numChar (CHR ''<'')" by (simp add: numChar_def isDigit_def)
  with run have "CHR ''<'' \<notin> set run" by blast
  then have lt: "CHR ''<'' \<notin> set (CHR ''>'' # run)" by simp
  have "replace_first (CHR ''<'') ((CHR ''>'' # run) @ [CHR ''<'']) = CHR ''>'' # run"
    using lt by (rule replace_first_absent)
  with f have "replace_first (CHR ''<'') finalMatch = CHR ''>'' # run" by simp
  then have c: "cleanMatch finalMatch = replace_first (CHR '','') run"
    by (simp add: cleanMatch_def)
  have "set (replace_first (CHR '','') run) \<subseteq> set run" by (rule set_replace_first)
  with run c show ?thesis by auto
qed

text \<open>The two examples of the specification: 28.200 gives 28.2, 1,001.50 gives 1001.5.\<close>

lemma parsePage_28_200: "parsePage (tutorialSpan ''28.200'') = Inr (Num (282 / 10))"
  by (simp add: tutorialSpan_def priceSpan_def extract_defs)

lemma parsePage_1_001_50: "parsePage (tutorialSpan ''1,001.50'') = Inr (Num (10015 / 10))"
  by (simp add: tutorialSpan_def priceSpan_def extract_defs)

text \<open>
  Claim C8: whenever both regex stages match, the extraction strips all
  thousands-separator commas and the angle brackets from the matched text and parses the
  rest as a float; 28.200 gives 28.2 and 1,001.50 gives 1001.5.

  The two examples hold (see above), but \<open>replace(',', '')\<close> takes a string pattern and
  removes the first comma only. With two separators the second comma stays and
  \<open>parseFloat\<close> stops in front of it: the price 1,234,567.00 is read as 1234.
\<close>

theorem parsePage_two_commas:
  "cleanMatch ''>1,234,567.00<'' = ''1234,567.00'' \<and>
   parsePage (tutorialSpan ''1,234,567.00'') = Inr (Num 1234)"
  by (simp add: tutorialSpan_def priceSpan_def extract_defs)

text \<open>
  Claim C4: when regex 1 finds no match, or regex 2 finds no match, or the cleaned text
  is not a number, the extraction fails with an error that lookupQuote turns into the
  failure value \<open>-1\<close>, instead of an exception that ends the run.

  In the script the \<open>try\<close> block ends before the extraction. A page without the marker
  and a page whose price element holds \<open>N/A\<close> both end in a TypeError, which leaves
  lookupQuote and updateMasterList; the run stops in the first row and column F is not
  written. A cleaned text that is no number gives NaN, not \<open>-1\<close>.
\<close>

theorem parse_failure_escapes:
  "parsePage ''<html></html>'' = Inl TypeError
   \<and> parsePage (tutorialSpan ''N/A'') = Inl TypeError
   \<and> parsePage (tutorialSpan ''.'') = Inr NaN
   \<and> fst (lookupQuote ''2388'' ''https://finance.yahoo.com/quote/2388.HK?p=500''
            (exampleWorld (alwaysStatus 200 ''<html></html>''))) = Inl TypeError
   \<and> fst (updateMasterList (exampleWorld (alwaysStatus 200 ''<html></html>''))) = Inl TypeError
   \<and> colF (snd (updateMasterList (exampleWorld (alwaysStatus 200 ''<html></html>'')))) 2 = Blank
   \<and> colF (snd (updateMasterList (exampleWorld (alwaysStatus 200 ''<html></html>'')))) 3 = Blank"
proof -
  have a: "parsePage ''<html></html>'' = Inl TypeError" by code_simp
  have b: "parsePage (tutorialSpan ''N/A'') = Inl TypeError" by code_simp
  have c: "parsePage (tutorialSpan ''.'') = Inr NaN" by code_simp
  have d: "fst (lookupQuote ''2388'' ''https://finance.yahoo.com/quote/2388.HK?p=500''
            (exampleWorld (alwaysStatus 200 ''<html></html>''))) = Inl TypeError" by code_simp
  have e: "fst (updateMasterList (exampleWorld (alwaysStatus 200 ''<html></html>''))) = Inl TypeError"
    by code_simp
  have f: "colF (snd (updateMasterList (exampleWorld (alwaysStatus 200 ''<html></html>'')))) 2 = Blank"
    by code_simp
  have g: "colF (snd (updateMasterList (exampleWorld (alwaysStatus 200 ''<html></html>'')))) 3 = Blank"
    by code_simp
  from a b c d e f g show ?thesis by blast
qed

section \<open>The three attempts\<close>

lemma logEvent_fields [simp]:
  "K1 (logEvent e w) = K1 w" "K2 (logEvent e w) = K2 w"
  "colA (logEvent e w) = colA w" "colD (logEvent e w) = colD w"
  "colF (logEvent e w) = colF w" "colG (logEvent e w) = colG w"
  "fetch_calls (logEvent e w) = fetch_calls w" "fetch_results (logEvent e w) = fetch_results w"
  "random_calls (logEvent e w) = random_calls w" "random_values (logEvent e w) = random_values w"
  "getTimeNow (logEvent e w) = getTimeNow w"
  "trace (logEvent e w) = trace w @ [e]"
  by (simp_all add: logEvent_def getTimeNow_def)

lemma writeTimestamp_fields [simp]:
  "K1 (writeTimestamp w) = K1 w" "K2 (writeTimestamp w) = Text (getTimeNow w)"
  "colA (writeTimestamp w) = colA w" "colD (writeTimestamp w) = colD w"
  "colF (writeTimestamp w) = colF w" "colG (writeTimestamp w) = colG w"
  "trace (writeTimestamp w) = trace w @ [WriteAt 2 11]"
  by (simp_all add: writeTimestamp_def)

lemma fetched_fields [simp]:
  "fetch_calls (fetched url w) = Suc (fetch_calls w)"
  "fetch_results (fetched url w) = fetch_results w"
  by (simp_all add: fetched_def UrlFetchApp_fetch_def logEvent_def)

lemma all_less_3: "(\<forall>j<3. P j) = (P 0 \<and> P (Suc 0) \<and> P 2)"
  by (auto simp: numeral_3_eq_3 numeral_2_eq_2 less_Suc_eq)

lemma all_less_2: "(\<forall>j<2. P j) = (P 0 \<and> P (Suc 0))"
  by (auto simp: numeral_2_eq_2 less_Suc_eq)

lemma ex_less_3: "(\<exists>j<3. P j) = (P 0 \<or> P (Suc 0) \<or> P 2)"
  by (auto simp: numeral_3_eq_3 numeral_2_eq_2 less_Suc_eq)

lemma ex_less_2: "(\<exists>j<2. P j) = (P 0 \<or> P (Suc 0))"
  by (auto simp: numeral_2_eq_2 less_Suc_eq)

text \<open>The loop written out: it stops at the first attempt that is not a non-200 page.\<close>

lemma attemptLoop_unfolded:
  "attemptLoop 0 url w =
     (let o0 = attemptOutcome url w 0; o1 = attemptOutcome url w 1; o2 = attemptOutcome url w 2;
          w1 = fetched url w; w2 = fetched url w1; w3 = fetched url w2
      in if \<not> otherStatus o0 then (o0, w1)
         else if \<not> otherStatus o1 then (o1, w2)
         else (o2, w3))"
  by (auto simp add: attemptLoop.simps[of 0] attemptLoop.simps[of "Suc 0"] attemptLoop.simps[of "Suc (Suc 0)"] 
      UrlFetchApp_fetch_def logEvent_def fetched_def attemptOutcome_def otherStatus_def Let_def
      split: prod.splits fetch_result.splits)

lemma lookupQuote_world: "snd (lookupQuote symbol url w) = snd (attemptLoop 0 url w)"
  by (simp add: lookupQuote_def split: prod.splits fetch_result.splits)

lemma fetched_trace [simp]: "trace (fetched url w) = trace w @ [Fetch url]"
  by (simp add: fetched_def UrlFetchApp_fetch_def)

lemma attemptLoop_trace:
  "trace (snd (attemptLoop 0 url w))
     = trace w @ replicate (fetch_calls (snd (attemptLoop 0 url w)) - fetch_calls w) (Fetch url)"
  by (simp add: attemptLoop_unfolded Let_def numeral_2_eq_2 numeral_3_eq_3)

lemma lookupQuote_trace:
  "trace (snd (lookupQuote symbol url w))
     = trace w @ replicate (attemptsMade symbol url w) (Fetch url)"
  by (simp add: attemptsMade_def lookupQuote_world attemptLoop_trace)

text \<open>
  Claim C3: for every URL, lookupQuote makes at most 3 attempts, one after the other and
  each for that URL; it stops right after the first attempt that returns status 200; it
  returns the failure value \<open>-1\<close> if and only if none of the attempts made returned status
  200 or one of them threw; and when every attempt returns status 500 it fails after
  exactly 3 attempts.
\<close>

theorem lookupQuote_attempts:
  "1 \<le> attemptsMade symbol url w \<and> attemptsMade symbol url w \<le> 3
   \<and> trace (snd (lookupQuote symbol url w))
       = trace w @ replicate (attemptsMade symbol url w) (Fetch url)
   \<and> (\<forall>j<3. is200 (attemptOutcome url w j) \<and> (\<forall>i<j. otherStatus (attemptOutcome url w i))
          \<longrightarrow> attemptsMade symbol url w = j + 1)
   \<and> (fst (lookupQuote symbol url w) = Inr (Num (- 1)) \<longleftrightarrow>
        (\<forall>j<attemptsMade symbol url w. \<not> is200 (attemptOutcome url w j))
        \<or> (\<exists>j<attemptsMade symbol url w. attemptOutcome url w j = TransportError))
   \<and> ((\<forall>j<3. \<exists>body. attemptOutcome url w j = Response 500 body)
        \<longrightarrow> attemptsMade symbol url w = 3 \<and> fst (lookupQuote symbol url w) = Inr (Num (- 1)))"
proof -
  have counts:
    "1 \<le> attemptsMade symbol url w \<and> attemptsMade symbol url w \<le> 3
     \<and> (\<forall>j<3. is200 (attemptOutcome url w j) \<and> (\<forall>i<j. otherStatus (attemptOutcome url w i))
            \<longrightarrow> attemptsMade symbol url w = j + 1)
     \<and> (fst (lookupQuote symbol url w) = Inr (Num (- 1)) \<longleftrightarrow>
          (\<forall>j<attemptsMade symbol url w. \<not> is200 (attemptOutcome url w j))
          \<or> (\<exists>j<attemptsMade symbol url w. attemptOutcome url w j = TransportError))
     \<and> ((\<forall>j<3. \<exists>body. attemptOutcome url w j = Response 500 body)
          \<longrightarrow> attemptsMade symbol url w = 3 \<and> fst (lookupQuote symbol url w) = Inr (Num (- 1)))"
    apply (simp add: all_less_3)
    apply (cases "attemptOutcome url w 0"; cases "attemptOutcome url w (Suc 0)";
        cases "attemptOutcome url w 2")
           apply (simp_all add: attemptsMade_def lookupQuote_def attemptLoop_unfolded Let_def
        otherStatus_def is200_def parsePage_not_sent2 all_less_3 all_less_2 ex_less_3 ex_less_2
        split: prod.splits fetch_result.splits)
    done
  have sameUrl: "trace (snd (lookupQuote symbol url w))
       = trace w @ replicate (attemptsMade symbol url w) (Fetch url)"
    by (rule lookupQuote_trace)
  from counts sameUrl show ?thesis by blast
qed

theorem lookupQuote_attempts_witness:
  "is200 (attemptOutcome ''u'' (exampleWorld (secondCallPage (tutorialSpan ''28.200''))) 1)
   \<and> otherStatus (attemptOutcome ''u'' (exampleWorld (secondCallPage (tutorialSpan ''28.200''))) 0)
   \<and> attemptsMade ''DIS'' ''u'' (exampleWorld (secondCallPage (tutorialSpan ''28.200''))) = 2
   \<and> attemptOutcome ''u'' (exampleWorld (alwaysStatus 500 [])) 0 = Response 500 []
   \<and> attemptOutcome ''u'' (exampleWorld (alwaysStatus 500 [])) 1 = Response 500 []
   \<and> attemptOutcome ''u'' (exampleWorld (alwaysStatus 500 [])) 2 = Response 500 []
   \<and> attemptsMade ''DIS'' ''u'' (exampleWorld (alwaysStatus 500 [])) = 3
   \<and> fst (lookupQuote ''DIS'' ''u'' (exampleWorld (alwaysStatus 500 []))) = Inr (Num (- 1))"
proof -
  let ?w = "exampleWorld (secondCallPage (tutorialSpan ''28.200''))"
  let ?d = "exampleWorld (alwaysStatus 500 [])"
  have a: "is200 (attemptOutcome ''u'' ?w 1)"
    by (simp add: is200_def attemptOutcome_def exampleWorld_def secondCallPage_def)
  have b: "otherStatus (attemptOutcome ''u'' ?w 0)"
    by (simp add: otherStatus_def attemptOutcome_def exampleWorld_def secondCallPage_def)
  then have b': "\<forall>i<1. otherStatus (attemptOutcome ''u'' ?w i)" by simp
  have one: "(1::nat) < 3" by simp
  from lookupQuote_attempts [of "''DIS''" "''u''" ?w] a b' one
  have c: "attemptsMade ''DIS'' ''u'' ?w = 1 + 1" by blast
  have d: "\<forall>j<3. \<exists>body. attemptOutcome ''u'' ?d j = Response 500 body"
    by (simp add: attemptOutcome_def exampleWorld_def alwaysStatus_def)
  from lookupQuote_attempts [of "''DIS''" "''u''" ?d] d
  have e: "attemptsMade ''DIS'' ''u'' ?d = 3 \<and> fst (lookupQuote ''DIS'' ''u'' ?d) = Inr (Num (- 1))"
    by blast
  have f: "attemptOutcome ''u'' ?d 0 = Response 500 []"
    "attemptOutcome ''u'' ?d 1 = Response 500 []"
    "attemptOutcome ''u'' ?d 2 = Response 500 []"
    by (simp_all add: attemptOutcome_def exampleWorld_def alwaysStatus_def)
  from a b c e f show ?thesis by simp
qed

section \<open>The URL of a row\<close>

text \<open>
  The double product: it is at most half a unit in the last place above the exact
  product, and a double below 1 is at most \<open>1 - 2 ^ -53\<close>, so the product of a draw
  and 1000 stays below 1000.
\<close>

lemma roundHalfEven_upper: "of_int (roundHalfEven x) \<le> x + 1 / 2"
proof -
  define d where "d = x - of_int \<lfloor>x\<rfloor>"
  have x: "x = of_int \<lfloor>x\<rfloor> + d" by (simp add: d_def)
  have d0: "0 \<le> d" by (simp add: d_def)
  consider "d < 1 / 2" | "1 / 2 < d" | "d = 1 / 2" by linarith
  then show ?thesis
  proof cases
    case 1
    then have "roundHalfEven x = \<lfloor>x\<rfloor>" by (simp add: roundHalfEven_def Let_def d_def)
    with x d0 show ?thesis by linarith
  next
    case 2
    then have "roundHalfEven x = \<lfloor>x\<rfloor> + 1" by (simp add: roundHalfEven_def Let_def d_def)
    with x 2 show ?thesis by simp
  next
    case 3
    then have "roundHalfEven x = \<lfloor>x\<rfloor> \<or> roundHalfEven x = \<lfloor>x\<rfloor> + 1"
      by (simp add: roundHalfEven_def Let_def d_def)
    with x 3 show ?thesis by auto
  qed
qed

lemma roundHalfEven_nonneg: "0 \<le> x \<Longrightarrow> 0 \<le> roundHalfEven x"
  by (auto simp: roundHalfEven_def Let_def)

lemma binade_less: "0 < q \<Longrightarrow> q < 2 ^ k \<Longrightarrow> binade q < int k"
proof (induction q arbitrary: k rule: binade.induct)
  case (1 q)
  show ?case
  proof (cases "2 \<le> q")
    case True
    with "1.prems" obtain j where k: "k = Suc j"
      by (cases k) auto
    with "1.prems" True have "q / 2 < 2 ^ j" by simp
    moreover from True have "0 < q / 2" by simp
    ultimately have "binade (q / 2) < int j"
      using "1.IH"(1) [of j] "1.prems" True by simp
    with True "1.prems" k show ?thesis by (simp add: binade.simps [of q])
  next
    case False
    show ?thesis
    proof (cases "q < 1")
      case True
      from "1.prems" have "q * 2 < 2 ^ Suc k" by simp
      moreover from "1.prems" have "0 < q * 2" by simp
      ultimately have "binade (q * 2) < int (Suc k)"
        using "1.IH"(2) [of "Suc k"] "1.prems" False True by simp
      with True False "1.prems" show ?thesis by (simp add: binade.simps [of q])
    next
      case notless: False
      with "1.prems" have "k \<noteq> 0" by (cases k) auto
      with notless False "1.prems" show ?thesis by (simp add: binade.simps [of q])
    qed
  qed
qed

lemma binade_half: "1 / 2 \<le> q \<Longrightarrow> q < 1 \<Longrightarrow> binade q = - 1"
  by (simp add: binade.simps [of q] binade.simps [of "q * 2"])

lemma toDouble_nonneg: "0 \<le> q \<Longrightarrow> 0 \<le> toDouble q"
  by (auto simp: toDouble_def Let_def roundHalfEven_nonneg)

lemma powi_m53: "(2::rat) powi (- 53) = 1 / 2 ^ 53"
  by (simp add: power_int_def power_divide)

lemma powi_m43: "(2::rat) powi (- 43) = 1 / 2 ^ 43"
  by (simp add: power_int_def power_divide)

lemma toDouble_pos:
  "0 < q \<Longrightarrow> toDouble q =
     of_int (roundHalfEven (q / 2 powi (max (binade q) (- 1022) - 52)))
       * 2 powi (max (binade q) (- 1022) - 52)"
  by (simp add: toDouble_def Let_def)

lemma toDouble_upper:
  assumes "0 < q" and "q < 1024"
  shows "toDouble q \<le> q + 1 / 2 ^ 44"
proof -
  define e where "e = max (binade q) (- 1022)"
  define u :: rat where "u = 2 powi (e - 52)"
  have "q < 2 ^ 10" using assms by simp
  with assms(1) have "binade q < int 10" by (rule binade_less)
  then have "e - 52 \<le> - 43" by (simp add: e_def)
  then have "(2::rat) powi (e - 52) \<le> 2 powi (- 43)"
    by (rule power_int_increasing) simp
  then have u_le: "u \<le> 1 / 2 ^ 43" by (simp only: u_def powi_m43)
  have u_pos: "0 < u" unfolding u_def by (rule zero_less_power_int) simp
  have td: "toDouble q = of_int (roundHalfEven (q / u)) * u"
    using toDouble_pos [OF assms(1)] by (simp only: e_def u_def)
  have "of_int (roundHalfEven (q / u)) \<le> q / u + 1 / 2"
    by (rule roundHalfEven_upper)
  then have "of_int (roundHalfEven (q / u)) * u \<le> (q / u + 1 / 2) * u"
    using u_pos by (rule mult_right_mono [OF _ less_imp_le])
  also have "\<dots> = q + u / 2" using u_pos by (simp add: distrib_right)
  also have "\<dots> \<le> q + 1 / 2 ^ 44" using u_le by simp
  finally show ?thesis using td by simp
qed

lemma isDouble_below_one:
  assumes "isDouble r" and "r < 1"
  shows "r \<le> 1 - 1 / 2 ^ 53"
proof (cases "r < 1 / 2")
  case True
  then show ?thesis by simp
next
  case False
  then have half: "1 / 2 \<le> r" by simp
  then have pos: "0 < r" by simp
  from half assms(2) have b: "binade r = - 1" by (rule binade_half)
  define m where "m = roundHalfEven (r / 2 powi (- 53))"
  have "toDouble r = of_int m * 2 powi (- 53)"
    using toDouble_pos [OF pos] by (simp add: b m_def)
  with assms(1) have r: "r = of_int m * (1 / 2 ^ 53)"
    by (simp only: isDouble_def powi_m53)
  have "of_int m * (1 / 2 ^ 53) < (1::rat)" using r assms(2) by simp
  then have "of_int m < (2 ^ 53 :: rat)" by (simp add: field_simps)
  then have "(of_int m :: rat) < of_int (2 ^ 53)" by simp
  then have "m < 2 ^ 53" by (simp only: of_int_less_iff)
  then have "m \<le> 2 ^ 53 - 1" by simp
  then have "(of_int m :: rat) \<le> of_int (2 ^ 53 - 1)" by (simp only: of_int_le_iff)
  then have "(of_int m :: rat) \<le> 2 ^ 53 - 1" by simp
  then have "of_int m * (1 / 2 ^ 53) \<le> (2 ^ 53 - 1) * (1 / 2 ^ 53 :: rat)"
    by (rule mult_right_mono) simp
  with r show ?thesis by simp
qed

lemma floor_random:
  assumes "0 \<le> r" and "r < 1" and "isDouble r"
  shows "0 \<le> \<lfloor>toDouble (r * 1000)\<rfloor> \<and> \<lfloor>toDouble (r * 1000)\<rfloor> \<le> 999"
proof -
  have lo: "0 \<le> toDouble (r * 1000)" using assms(1) by (simp add: toDouble_nonneg)
  have hi: "toDouble (r * 1000) < 1000"
  proof (cases "r = 0")
    case True
    then show ?thesis by (simp add: toDouble_def)
  next
    case False
    with assms(1) have pos: "0 < r * 1000" by simp
    from isDouble_below_one [OF assms(3,2)] have le: "r * 1000 \<le> 1000 - 1000 / 2 ^ 53" by simp
    then have "r * 1000 < 1024" by simp
    with pos have "toDouble (r * 1000) \<le> r * 1000 + 1 / 2 ^ 44" by (rule toDouble_upper)
    with le show ?thesis by simp
  qed
  from lo have "0 \<le> \<lfloor>toDouble (r * 1000)\<rfloor>" by simp
  moreover from hi have "\<lfloor>toDouble (r * 1000)\<rfloor> < 1000" by (simp add: floor_less_iff)
  ultimately show ?thesis by simp
qed

text \<open>
  The draw 0.119 (the double nearest to it): the exact product with 1000 is just below
  119, the double product is 119.
\<close>

lemma double_product_0_119:
  "\<lfloor>toDouble (119 / 1000) * 1000\<rfloor> = 118
   \<and> \<lfloor>toDouble (toDouble (119 / 1000) * 1000)\<rfloor> = 119"
  by code_simp

text \<open>
  Claim C7: for every symbol and exchange code, URLFromExchange returns the quote URL
  with the symbol followed by the suffix of the table (USA none, SGX \<open>.SI\<close>, HKEX
  \<open>.HK\<close>, XSSC \<open>.SS\<close>); a code outside the table gives what USA gives; and the query
  parameter is a randomized integer from 0 to 999: it is the floor of the double product
  of this call's draw of \<open>Math.random()\<close> and 1000, and the call uses up that draw.
  \<open>Math.random()\<close> returns a double from 0 inclusive to 1 exclusive: these are the
  hypotheses.
\<close>

theorem URLFromExchange_suffix:
  assumes "0 \<le> random_values w (random_calls w)" and "random_values w (random_calls w) < 1"
    and "isDouble (random_values w (random_calls w))"
  shows "fst (URLFromExchange symbol exchange w) =
           ''https://finance.yahoo.com/quote/'' @ symbol
             @ (case map_of suffixTable exchange of Some suffix \<Rightarrow> suffix | None \<Rightarrow> [])
             @ ''?p='' @ intToString \<lfloor>toDouble (random_values w (random_calls w) * 1000)\<rfloor>
         \<and> 0 \<le> \<lfloor>toDouble (random_values w (random_calls w) * 1000)\<rfloor>
         \<and> \<lfloor>toDouble (random_values w (random_calls w) * 1000)\<rfloor> \<le> 999
         \<and> random_calls (snd (URLFromExchange symbol exchange w)) = Suc (random_calls w)
         \<and> (map_of suffixTable exchange = None \<longrightarrow>
              fst (URLFromExchange symbol exchange w) = fst (URLFromExchange symbol ''USA'' w))"
proof -
  let ?p = "\<lfloor>toDouble (random_values w (random_calls w) * 1000)\<rfloor>"
  have range: "0 \<le> ?p \<and> ?p \<le> 999" using assms by (rule floor_random)
  have url: "fst (URLFromExchange symbol exchange w) =
              ''https://finance.yahoo.com/quote/'' @ symbol
                @ (case map_of suffixTable exchange of Some suffix \<Rightarrow> suffix | None \<Rightarrow> [])
                @ ''?p='' @ intToString ?p"
    by (simp add: URLFromExchange_def Math_random_def suffixTable_def)
  have drawn: "random_calls (snd (URLFromExchange symbol exchange w)) = Suc (random_calls w)"
    by (simp add: URLFromExchange_def Math_random_def)
  have unknown: "map_of suffixTable exchange = None \<longrightarrow>
              fst (URLFromExchange symbol exchange w) = fst (URLFromExchange symbol ''USA'' w)"
    by (simp add: URLFromExchange_def Math_random_def suffixTable_def)
  from range url drawn unknown show ?thesis by blast
qed

theorem URLFromExchange_suffix_witness:
  "0 \<le> random_values (exampleWorld (alwaysStatus 500 [])) (random_calls (exampleWorld (alwaysStatus 500 [])))
   \<and> random_values (exampleWorld (alwaysStatus 500 [])) (random_calls (exampleWorld (alwaysStatus 500 []))) < 1
   \<and> isDouble (random_values (exampleWorld (alwaysStatus 500 [])) (random_calls (exampleWorld (alwaysStatus 500 []))))
   \<and> fst (URLFromExchange ''ES3'' ''SGX'' (exampleWorld (alwaysStatus 500 [])))
       = ''https://finance.yahoo.com/quote/ES3.SI?p=500''
   \<and> fst (URLFromExchange ''2388'' ''HKEX'' (exampleWorld (alwaysStatus 500 [])))
       = ''https://finance.yahoo.com/quote/2388.HK?p=500''
   \<and> fst (URLFromExchange ''DIS'' ''USA'' (exampleWorld (alwaysStatus 500 [])))
       = ''https://finance.yahoo.com/quote/DIS?p=500''
   \<and> fst (URLFromExchange ''X'' ''UNKNOWN'' (exampleWorld (alwaysStatus 500 [])))
       = ''https://finance.yahoo.com/quote/X?p=500''
   \<and> random_calls (snd (URLFromExchange ''X'' ''UNKNOWN'' (exampleWorld (alwaysStatus 500 [])))) = 1"
proof -
  let ?w = "exampleWorld (alwaysStatus 500 [])"
  have lo: "0 \<le> random_values ?w (random_calls ?w)" by (simp add: exampleWorld_def)
  have hi: "random_values ?w (random_calls ?w) < 1" by (simp add: exampleWorld_def)
  have dbl: "isDouble (random_values ?w (random_calls ?w))" by code_simp
  have p: "intToString \<lfloor>toDouble (random_values ?w (random_calls ?w) * 1000)\<rfloor> = ''500''"
    by code_simp
  have calls: "random_calls ?w = 0" by (simp add: exampleWorld_def)
  note u = URLFromExchange_suffix [OF lo hi dbl]
  from u [of "''ES3''" "''SGX''", THEN conjunct1] p
  have a: "fst (URLFromExchange ''ES3'' ''SGX'' ?w) = ''https://finance.yahoo.com/quote/ES3.SI?p=500''"
    by (simp add: suffixTable_def)
  from u [of "''2388''" "''HKEX''", THEN conjunct1] p
  have b: "fst (URLFromExchange ''2388'' ''HKEX'' ?w) = ''https://finance.yahoo.com/quote/2388.HK?p=500''"
    by (simp add: suffixTable_def)
  from u [of "''DIS''" "''USA''", THEN conjunct1] p
  have c: "fst (URLFromExchange ''DIS'' ''USA'' ?w) = ''https://finance.yahoo.com/quote/DIS?p=500''"
    by (simp add: suffixTable_def)
  from u [of "''X''" "''UNKNOWN''", THEN conjunct1] p
  have d: "fst (URLFromExchange ''X'' ''UNKNOWN'' ?w) = ''https://finance.yahoo.com/quote/X?p=500''"
    by (simp add: suffixTable_def)
  from u [of "''X''" "''UNKNOWN''"] calls
  have e: "random_calls (snd (URLFromExchange ''X'' ''UNKNOWN'' ?w)) = 1"
    by simp
  from lo hi dbl a b c d e show ?thesis by blast
qed

section \<open>What the lookups and the two loops change\<close>

lemma sameSheet_refl [simp]: "sameSheet w w"
  by (simp add: sameSheet_def)

lemma sameSheet_trans: "sameSheet w w' \<Longrightarrow> sameSheet w' w'' \<Longrightarrow> sameSheet w w''"
  by (simp add: sameSheet_def)

lemma fetched_sameSheet [simp]: "sameSheet w (fetched url w') = sameSheet w w'"
  by (simp add: sameSheet_def fetched_def UrlFetchApp_fetch_def logEvent_def)

lemma lookupQuote_sameSheet: "sameSheet w (snd (lookupQuote symbol url w))"
  by (simp add: lookupQuote_world attemptLoop_unfolded Let_def)

lemma URLFromExchange_sameSheet: "sameSheet w (snd (URLFromExchange symbol exchange w))"
  by (simp add: URLFromExchange_def Math_random_def sameSheet_def Let_def split: prod.splits)

lemma lookupRow_sameSheet: "sameSheet w (snd (lookupRow row w))"
proof -
  obtain url w1 where u: "URLFromExchange (fst row) (snd row) w = (url, w1)"
    by (cases "URLFromExchange (fst row) (snd row) w")
  have a: "sameSheet w w1"
    using URLFromExchange_sameSheet [of w "fst row" "snd row"] u by simp
  have b: "sameSheet w1 (snd (lookupQuote (fst row) url w1))"
    by (rule lookupQuote_sameSheet)
  show ?thesis
    using sameSheet_trans [OF a b] u by (simp add: lookupRow_def)
qed

lemma loopD1_sameSheet: "sameSheet w (snd (loopD1 rows w))"
proof (induction rows arbitrary: w)
  case Nil
  show ?case by simp
next
  case (Cons row rows)
  have a: "sameSheet w (snd (lookupRow row w))" by (rule lookupRow_sameSheet)
  have b: "sameSheet (snd (lookupRow row w)) (snd (loopD1 rows (snd (lookupRow row w))))"
    by (rule Cons.IH)
  show ?case
  proof (cases "lookupRow row w")
    case (Pair r w1)
    show ?thesis
    proof (cases r)
      case (Inl e)
      with Pair a show ?thesis by simp
    next
      case (Inr quote)
      obtain r2 w2 where p2: "loopD1 rows w1 = (r2, w2)"
        by (cases "loopD1 rows w1")
      from sameSheet_trans [OF a b] Pair p2 have "sameSheet w w2" by simp
      with Pair Inr p2 show ?thesis by (cases r2) simp_all
    qed
  qed
qed

text \<open>Subsection D1: one price for each row, the price of that row's lookup.\<close>

lemma loopD1_Cons_Inr:
  "loopD1 (row # rows) w = (Inr prices, w') \<Longrightarrow>
   \<exists>quote w1 ps. lookupRow row w = (Inr quote, w1) \<and> loopD1 rows w1 = (Inr ps, w')
      \<and> prices = quote # ps"
proof -
  assume run: "loopD1 (row # rows) w = (Inr prices, w')"
  obtain r w1 where p1: "lookupRow row w = (r, w1)"
    by (cases "lookupRow row w")
  obtain r2 w2 where p2: "loopD1 rows w1 = (r2, w2)"
    by (cases "loopD1 rows w1")
  from run p1 obtain quote where q: "r = Inr quote"
    by (cases r) simp_all
  from run p1 p2 q obtain ps where ps: "r2 = Inr ps"
    by (cases r2) simp_all
  from run p1 p2 q ps show ?thesis by simp
qed

lemma loopD1_length: "loopD1 rows w = (Inr prices, w') \<Longrightarrow> length prices = length rows"
proof (induction rows arbitrary: w prices)
  case Nil
  then show ?case by simp
next
  case (Cons row rows)
  from loopD1_Cons_Inr [OF Cons.prems] obtain quote w1 ps where
    "loopD1 rows w1 = (Inr ps, w')" "prices = quote # ps" by blast
  with Cons.IH [of w1 ps] show ?case by simp
qed

lemma loopD1_nth:
  "loopD1 rows w = (Inr prices, w') \<Longrightarrow> k < length rows \<Longrightarrow>
   fst (lookupRow (rows ! k) (worldBeforeRow rows w k)) = Inr (prices ! k)"
proof (induction rows arbitrary: w prices k)
  case Nil
  then show ?case by simp
next
  case (Cons row rows)
  from loopD1_Cons_Inr [OF Cons.prems(1)] obtain quote w1 ps where
    h: "lookupRow row w = (Inr quote, w1)" "loopD1 rows w1 = (Inr ps, w')" "prices = quote # ps"
    by blast
  show ?case
  proof (cases k)
    case 0
    with h show ?thesis by simp
  next
    case (Suc j)
    with Cons.prems(2) have "j < length rows" by simp
    from Cons.IH [OF h(2) this] h Suc show ?thesis by simp
  qed
qed

text \<open>Subsection D2: the cells of columns F and G afterwards.\<close>

lemma nth_Cons_diff: "r < x \<Longrightarrow> (p # ps) ! (x - r) = ps ! (x - Suc r)"
proof -
  assume "r < x"
  then have "x - r = Suc (x - Suc r)" by arith
  then show ?thesis by simp
qed

lemma setValues_apply:
  "setValues r ps col x =
     (if r \<le> x \<and> x < r + length ps then Numeric (ps ! (x - r)) else col x)"
proof (induction ps arbitrary: r col)
  case Nil
  show ?case by auto
next
  case (Cons p ps)
  have "setValues r (p # ps) col x = setValues (Suc r) ps (col(r := Numeric p)) x"
    by simp
  also have "\<dots> = (if Suc r \<le> x \<and> x < Suc r + length ps then Numeric (ps ! (x - Suc r))
                   else (col(r := Numeric p)) x)"
    by (rule Cons.IH)
  also have "\<dots> = (if r \<le> x \<and> x < r + length (p # ps) then Numeric ((p # ps) ! (x - r))
                   else col x)"
  proof -
    consider "x < r" | "x = r" | "r < x" by arith
    then show ?thesis
    proof cases
      case 1
      then show ?thesis by simp
    next
      case 2
      then show ?thesis by simp
    next
      case 3
      from 3 have "(p # ps) ! (x - r) = ps ! (x - Suc r)" by (rule nth_Cons_diff)
      with 3 show ?thesis by simp
    qed
  qed
  finally show ?case .
qed

lemma loopD2_colG:
  "colG (loopD2 k ps w) x =
     (if 2 + k \<le> x \<and> x < 2 + k + length ps \<and> ps ! (x - (2 + k)) \<noteq> Num (- 1)
      then Numeric (ps ! (x - (2 + k))) else colG w x)"
proof (induction ps arbitrary: k w)
  case Nil
  show ?case by auto
next
  case (Cons p ps)
  define w1 where "w1 = (if notMinusOne p
        then logEvent (WriteAt (2 + k) 7)
               (w\<lparr>colG := (colG w)(2 + k := Numeric (parseFloat_array p))\<rparr>)
        else w)"
  have g1: "colG w1 x = (if x = 2 + k \<and> p \<noteq> Num (- 1) then Numeric p else colG w x)"
    by (simp add: w1_def logEvent_def notMinusOne_def parseFloat_array_def)
  have "colG (loopD2 k (p # ps) w) x = colG (loopD2 (Suc k) ps w1) x"
    by (simp add: w1_def)
  also have "\<dots> = (if 2 + Suc k \<le> x \<and> x < 2 + Suc k + length ps
                        \<and> ps ! (x - (2 + Suc k)) \<noteq> Num (- 1)
                   then Numeric (ps ! (x - (2 + Suc k))) else colG w1 x)"
    by (rule Cons.IH)
  also have "\<dots> = (if 2 + k \<le> x \<and> x < 2 + k + length (p # ps)
                        \<and> (p # ps) ! (x - (2 + k)) \<noteq> Num (- 1)
                   then Numeric ((p # ps) ! (x - (2 + k))) else colG w x)"
  proof -
    consider "x < 2 + k" | "x = 2 + k" | "2 + k < x" by arith
    then show ?thesis
    proof cases
      case 1
      then show ?thesis by (simp add: g1)
    next
      case 2
      with g1 show ?thesis by simp
    next
      case 3
      from 3 have "(p # ps) ! (x - (2 + k)) = ps ! (x - Suc (2 + k))"
        by (rule nth_Cons_diff)
      with 3 show ?thesis by (simp add: g1)
    qed
  qed
  finally show ?case .
qed

lemma loopD2_rest:
  "colF (loopD2 k ps w) = colF w \<and> K2 (loopD2 k ps w) = K2 w"
  by (induction ps arbitrary: k w) (simp_all add: logEvent_def)

text \<open>Sections A and B, and the run up to the array \<open>prices\<close>.\<close>

lemma inputRows_length [simp]: "length (inputRows w n) = n"
  by (simp add: inputRows_def)

lemma inputRows_nth: "k < n \<Longrightarrow> inputRows w n ! k = (colA w (2 + k), colD w (2 + k))"
  by (simp add: inputRows_def)

lemma inputRows_cong: "colA w' = colA w \<Longrightarrow> colD w' = colD w \<Longrightarrow> inputRows w' n = inputRows w n"
  by (simp add: inputRows_def)

lemma sectionsAB_Inr:
  assumes "sectionsAB w = (Inr rows, w1)"
  shows "rows = inputRows w (length rows)" and "numRows (K1 w) = Inr (length rows)"
    and "colF w1 = colF w" and "colG w1 = colG w" and "K2 w1 = Text (getTimeNow w)"
proof -
  from assms obtain n where n: "numRows (K1 w) = Inr n"
    by (cases "numRows (K1 w)") (simp_all add: sectionsAB_def Let_def)
  let ?w0 = "writeTimestamp (logEvent (ReadAt 1 11) w)"
  from assms n have r: "rows = inputRows ?w0 n"
    and w1: "w1 = logEvent (ReadAt 2 4) (logEvent (ReadAt 2 1) ?w0)"
    by (simp_all add: sectionsAB_def Let_def)
  have "inputRows ?w0 n = inputRows w n"
    by (rule inputRows_cong) simp_all
  with r have r': "rows = inputRows w n" by simp
  then have len: "length rows = n" by simp
  from r' len show "rows = inputRows w (length rows)" by simp
  from n len show "numRows (K1 w) = Inr (length rows)" by simp
  from w1 show "colF w1 = colF w" by simp
  from w1 show "colG w1 = colG w" by simp
  from w1 show "K2 w1 = Text (getTimeNow w)" by simp
qed

lemma collectPrices_Inr:
  assumes "fst (collectPrices w) = Inr prices"
  obtains rows w1 w2 where "sectionsAB w = (Inr rows, w1)" "loopD1 rows w1 = (Inr prices, w2)"
    "collectPrices w = (Inr prices, w2)"
proof -
  obtain r w1 where ab: "sectionsAB w = (r, w1)" by (cases "sectionsAB w")
  from assms ab obtain rows where r: "r = Inr rows"
    by (cases r) (simp_all add: collectPrices_def)
  obtain r2 w2 where d1: "loopD1 rows w1 = (r2, w2)" by (cases "loopD1 rows w1")
  from assms ab r d1 have "r2 = Inr prices" by (simp add: collectPrices_def)
  with ab r d1 that show thesis by (simp add: collectPrices_def)
qed

text \<open>
  When every lookup of the run returns, so that the array \<open>prices\<close> is built, the run
  ends normally, and columns F and G are then as follows.
\<close>

lemma run_columns:
  assumes "fst (collectPrices w) = Inr prices"
  shows "colF (snd (updateMasterList w)) x =
           (if 2 \<le> x \<and> x < 2 + length prices then Numeric (prices ! (x - 2)) else colF w x)"
    and "colG (snd (updateMasterList w)) x =
           (if 2 \<le> x \<and> x < 2 + length prices \<and> prices ! (x - 2) \<noteq> Num (- 1)
            then Numeric (prices ! (x - 2)) else colG w x)"
    and "fst (updateMasterList w) = Inr ()"
proof -
  from assms obtain rows w1 w2 where ab: "sectionsAB w = (Inr rows, w1)"
    and d1: "loopD1 rows w1 = (Inr prices, w2)" and cp: "collectPrices w = (Inr prices, w2)"
    by (rule collectPrices_Inr)
  have s1: "colF w1 = colF w" "colG w1 = colG w"
    using sectionsAB_Inr [OF ab] by simp_all
  have "sameSheet w1 w2" using loopD1_sameSheet [of w1 rows] d1 by simp
  then have s2: "colF w2 = colF w" "colG w2 = colG w"
    using s1 by (simp_all add: sameSheet_def)
  have fin: "snd (updateMasterList w) = sectionD2 prices w2"
    by (simp add: updateMasterList_def cp)
  show "colF (snd (updateMasterList w)) x =
           (if 2 \<le> x \<and> x < 2 + length prices then Numeric (prices ! (x - 2)) else colF w x)"
    by (simp add: fin sectionD2_def loopD2_rest logEvent_def setValues_apply s2)
  show "colG (snd (updateMasterList w)) x =
           (if 2 \<le> x \<and> x < 2 + length prices \<and> prices ! (x - 2) \<noteq> Num (- 1)
            then Numeric (prices ! (x - 2)) else colG w x)"
    using loopD2_colG [of 0 prices "logEvent (WriteAt 2 6) (w2\<lparr>colF := setValues 2 prices (colF w2)\<rparr>)" x]
    by (simp add: fin sectionD2_def logEvent_def s2)
  show "fst (updateMasterList w) = Inr ()"
    by (simp add: updateMasterList_def cp)
qed

lemma run_rows:
  assumes "fst (collectPrices w) = Inr prices"
  shows "numRows (K1 w) = Inr (length prices)"
    and "k < length prices \<Longrightarrow>
         fst (lookupRow (colA w (2 + k), colD w (2 + k))
               (worldBeforeRow (inputRows w (length prices)) (snd (sectionsAB w)) k))
           = Inr (prices ! k)"
proof -
  from assms obtain rows w1 w2 where ab: "sectionsAB w = (Inr rows, w1)"
    and d1: "loopD1 rows w1 = (Inr prices, w2)"
    by (rule collectPrices_Inr)
  have len: "length prices = length rows" using d1 by (rule loopD1_length)
  have rows: "rows = inputRows w (length prices)"
    using sectionsAB_Inr(1) [OF ab] len by simp
  show "numRows (K1 w) = Inr (length prices)"
    using sectionsAB_Inr(2) [OF ab] len by simp
  assume k: "k < length prices"
  then have "k < length rows" using len by simp
  from loopD1_nth [OF d1 this]
  have "fst (lookupRow (rows ! k) (worldBeforeRow rows w1 k)) = Inr (prices ! k)" .
  moreover have "rows ! k = (colA w (2 + k), colD w (2 + k))"
    using rows k inputRows_nth [of k "length prices" w] by simp
  ultimately show "fst (lookupRow (colA w (2 + k), colD w (2 + k))
               (worldBeforeRow (inputRows w (length prices)) (snd (sectionsAB w)) k))
           = Inr (prices ! k)"
    using rows ab by simp
qed

section \<open>The buffered update\<close>

text \<open>
  In a run in which every lookup returns, so that \<open>prices\<close> is the array of the run
  (row \<open>2 + k\<close> of the sheet is entry \<open>k\<close>): a row whose lookup returned \<open>-1\<close> keeps its
  buffered price (column G) and gets \<open>-1\<close> as its new\_price (column F).
\<close>

lemma completed_run_failed_row:
  assumes "fst (collectPrices w) = Inr prices" and "k < length prices"
    and "prices ! k = Num (- 1)"
  shows "colG (snd (updateMasterList w)) (2 + k) = colG w (2 + k)
         \<and> colF (snd (updateMasterList w)) (2 + k) = Numeric (Num (- 1))"
  using assms run_columns(1,2) [OF assms(1), of "2 + k"] by simp

text \<open>
  Claim C1: for every row whose lookup returns the failure value \<open>-1\<close>, a run of
  updateMasterList leaves that row's buffered price (column G) as it was and writes \<open>-1\<close>
  into that row's new\_price (column F).

  The script writes column F only after the loop over all rows, and a lookup can end in a
  TypeError that nothing catches (claim C4). Here the three attempts for row 2 get 404, so
  its lookup returns \<open>-1\<close>, and row 3 gets a page without the price element: the run
  ends in the TypeError, the buffered price of row 2 is as before, but its new\_price is
  still empty, not \<open>-1\<close>.
\<close>

theorem failed_row_not_recorded:
  "fst (lookupRow
         (colA (exampleWorld (scriptedNet
            [Response 404 [], Response 404 [], Response 404 [], Response 200 ''<html></html>''])) 2,
          colD (exampleWorld (scriptedNet
            [Response 404 [], Response 404 [], Response 404 [], Response 200 ''<html></html>''])) 2)
         (snd (sectionsAB (exampleWorld (scriptedNet
            [Response 404 [], Response 404 [], Response 404 [], Response 200 ''<html></html>''])))))
     = Inr (Num (- 1))
   \<and> fst (updateMasterList (exampleWorld (scriptedNet
            [Response 404 [], Response 404 [], Response 404 [], Response 200 ''<html></html>''])))
     = Inl TypeError
   \<and> colG (snd (updateMasterList (exampleWorld (scriptedNet
            [Response 404 [], Response 404 [], Response 404 [], Response 200 ''<html></html>''])))) 2
     = Numeric (Num 28)
   \<and> colF (snd (updateMasterList (exampleWorld (scriptedNet
            [Response 404 [], Response 404 [], Response 404 [], Response 200 ''<html></html>''])))) 2
     = Blank"
proof -
  let ?w = "exampleWorld (scriptedNet
            [Response 404 [], Response 404 [], Response 404 [], Response 200 ''<html></html>''])"
  have a: "fst (lookupRow (colA ?w 2, colD ?w 2) (snd (sectionsAB ?w))) = Inr (Num (- 1))"
    by code_simp
  have b: "fst (updateMasterList ?w) = Inl TypeError" by code_simp
  have c: "colG (snd (updateMasterList ?w)) 2 = Numeric (Num 28)" by code_simp
  have d: "colF (snd (updateMasterList ?w)) 2 = Blank" by code_simp
  from a b c d show ?thesis by blast
qed

text \<open>
  In a run in which every lookup returns: a row whose lookup returned a number
  \<open>v \<ge> 0\<close> has \<open>v\<close> as its buffered price and as its new\_price afterwards.
\<close>

lemma completed_run_successful_row:
  assumes "fst (collectPrices w) = Inr prices" and "k < length prices"
    and "prices ! k = Num v" and "0 \<le> v"
  shows "colG (snd (updateMasterList w)) (2 + k) = Numeric (Num v)
         \<and> colF (snd (updateMasterList w)) (2 + k) = Numeric (Num v)"
  using assms run_columns(1,2) [OF assms(1), of "2 + k"] by auto

text \<open>
  Claim C2: for every row whose lookup returns a number \<open>v \<ge> 0\<close>, after the run both
  that row's buffered price (column G) and its new\_price (column F) are \<open>v\<close>.

  The script writes both columns only after the loop over all rows. Here the lookup of
  row 2 returns 28.2, and row 3 gets a page without the price element, so its lookup
  ends in the TypeError of claim C4 and the run with it: the buffered price of row 2 is
  still the old 28 and its new\_price is still empty.
\<close>

theorem successful_row_not_written:
  "fst (lookupRow
         (colA (exampleWorld (scriptedNet
            [Response 200 (tutorialSpan ''28.200''), Response 200 ''<html></html>''])) 2,
          colD (exampleWorld (scriptedNet
            [Response 200 (tutorialSpan ''28.200''), Response 200 ''<html></html>''])) 2)
         (snd (sectionsAB (exampleWorld (scriptedNet
            [Response 200 (tutorialSpan ''28.200''), Response 200 ''<html></html>''])))))
     = Inr (Num (282 / 10))
   \<and> fst (updateMasterList (exampleWorld (scriptedNet
            [Response 200 (tutorialSpan ''28.200''), Response 200 ''<html></html>''])))
     = Inl TypeError
   \<and> colG (snd (updateMasterList (exampleWorld (scriptedNet
            [Response 200 (tutorialSpan ''28.200''), Response 200 ''<html></html>''])))) 2
     = Numeric (Num 28)
   \<and> colF (snd (updateMasterList (exampleWorld (scriptedNet
            [Response 200 (tutorialSpan ''28.200''), Response 200 ''<html></html>''])))) 2
     = Blank"
proof -
  let ?w = "exampleWorld (scriptedNet
            [Response 200 (tutorialSpan ''28.200''), Response 200 ''<html></html>''])"
  have a: "fst (lookupRow (colA ?w 2, colD ?w 2) (snd (sectionsAB ?w))) = Inr (Num (282 / 10))"
    by code_simp
  have b: "fst (updateMasterList ?w) = Inl TypeError" by code_simp
  have c: "colG (snd (updateMasterList ?w)) 2 = Numeric (Num 28)" by code_simp
  have d: "colF (snd (updateMasterList ?w)) 2 = Blank" by code_simp
  from a b c d show ?thesis by blast
qed



text \<open>
  In a run in which every lookup returns: there are as many results as \<open>lastrow-1\<close>
  rows, entry \<open>k\<close> is the result of the lookup of the symbol and exchange in row
  \<open>2 + k\<close>, it is written to row \<open>2 + k\<close> of column F, and to row \<open>2 + k\<close> of column G
  unless it is \<open>-1\<close>, and no other row of the two columns changes.
\<close>

lemma completed_run_rows:
  assumes "fst (collectPrices w) = Inr prices"
  shows "numRows (K1 w) = Inr (length prices)
    \<and> (\<forall>k<length prices.
         fst (lookupRow (colA w (2 + k), colD w (2 + k))
               (worldBeforeRow (inputRows w (length prices)) (snd (sectionsAB w)) k))
           = Inr (prices ! k)
         \<and> colF (snd (updateMasterList w)) (2 + k) = Numeric (prices ! k)
         \<and> colG (snd (updateMasterList w)) (2 + k)
             = (if prices ! k = Num (- 1) then colG w (2 + k) else Numeric (prices ! k)))
    \<and> (\<forall>x. x < 2 \<or> 2 + length prices \<le> x \<longrightarrow>
         colF (snd (updateMasterList w)) x = colF w x
         \<and> colG (snd (updateMasterList w)) x = colG w x)"
proof (intro conjI allI impI)
  show "numRows (K1 w) = Inr (length prices)" using assms by (rule run_rows(1))
next
  fix k assume "k < length prices"
  then show "fst (lookupRow (colA w (2 + k), colD w (2 + k))
               (worldBeforeRow (inputRows w (length prices)) (snd (sectionsAB w)) k))
           = Inr (prices ! k)" using run_rows(2) [OF assms] by simp
next
  fix k assume "k < length prices"
  then show "colF (snd (updateMasterList w)) (2 + k) = Numeric (prices ! k)"
    using run_columns(1) [OF assms, of "2 + k"] by simp
next
  fix k assume "k < length prices"
  then show "colG (snd (updateMasterList w)) (2 + k)
             = (if prices ! k = Num (- 1) then colG w (2 + k) else Numeric (prices ! k))"
    using run_columns(2) [OF assms, of "2 + k"] by simp
next
  fix x assume "x < 2 \<or> 2 + length prices \<le> x"
  then show "colF (snd (updateMasterList w)) x = colF w x"
    using run_columns(1) [OF assms, of x] by auto
next
  fix x assume "x < 2 \<or> 2 + length prices \<le> x"
  then show "colG (snd (updateMasterList w)) x = colG w x"
    using run_columns(2) [OF assms, of x] by auto
qed

text \<open>
  Claim C6: whatever the rows and whichever lookups succeed or fail, the run writes the
  result of each row's lookup to that same row of the output columns, nothing reordered
  and nothing dropped.

  A lookup can also fail by the TypeError of claim C4, and then every result of the run
  is dropped. Here the lookup of row 2 returns 28.2 and the page of row 3 shows \<open>N/A\<close>
  in the price element: regex 2 finds nothing, the lookup of row 3 throws, the run ends
  and neither row has anything written to its place in column F or G.
\<close>

theorem row_results_dropped:
  "fst (lookupRow
         (colA (exampleWorld (scriptedNet
            [Response 200 (tutorialSpan ''28.200''), Response 200 (tutorialSpan ''N/A'')])) 2,
          colD (exampleWorld (scriptedNet
            [Response 200 (tutorialSpan ''28.200''), Response 200 (tutorialSpan ''N/A'')])) 2)
         (snd (sectionsAB (exampleWorld (scriptedNet
            [Response 200 (tutorialSpan ''28.200''), Response 200 (tutorialSpan ''N/A'')])))))
     = Inr (Num (282 / 10))
   \<and> fst (updateMasterList (exampleWorld (scriptedNet
            [Response 200 (tutorialSpan ''28.200''), Response 200 (tutorialSpan ''N/A'')])))
     = Inl TypeError
   \<and> colF (snd (updateMasterList (exampleWorld (scriptedNet
            [Response 200 (tutorialSpan ''28.200''), Response 200 (tutorialSpan ''N/A'')])))) 2
     = Blank
   \<and> colF (snd (updateMasterList (exampleWorld (scriptedNet
            [Response 200 (tutorialSpan ''28.200''), Response 200 (tutorialSpan ''N/A'')])))) 3
     = Blank
   \<and> colG (snd (updateMasterList (exampleWorld (scriptedNet
            [Response 200 (tutorialSpan ''28.200''), Response 200 (tutorialSpan ''N/A'')])))) 2
     = Numeric (Num 28)
   \<and> colG (snd (updateMasterList (exampleWorld (scriptedNet
            [Response 200 (tutorialSpan ''28.200''), Response 200 (tutorialSpan ''N/A'')])))) 3
     = Numeric (Num 145)"
proof -
  let ?w = "exampleWorld (scriptedNet
            [Response 200 (tutorialSpan ''28.200''), Response 200 (tutorialSpan ''N/A'')])"
  have a: "fst (lookupRow (colA ?w 2, colD ?w 2) (snd (sectionsAB ?w))) = Inr (Num (282 / 10))"
    by code_simp
  have b: "fst (updateMasterList ?w) = Inl TypeError" by code_simp
  have c: "colF (snd (updateMasterList ?w)) 2 = Blank" by code_simp
  have d: "colF (snd (updateMasterList ?w)) 3 = Blank" by code_simp
  have e: "colG (snd (updateMasterList ?w)) 2 = Numeric (Num 28)" by code_simp
  have f: "colG (snd (updateMasterList ?w)) 3 = Numeric (Num 145)" by code_simp
  from a b c d e f show ?thesis by blast
qed

text \<open>
  Claim C9: when the page of a row loads with status 200 and both regex stages match but
  the matched number text is empty (regex 2 gives \<open>><\<close>), lookupQuote returns NaN and
  not \<open>-1\<close>; NaN passes the test \<open>prices[k] != -1\<close>, so the run writes NaN into that
  row's buffered price, over the price buffered before.
\<close>

theorem empty_price_overwrites_buffer:
  assumes "fst (collectPrices w) = Inr prices" and "k < length prices"
    and "URLFromExchange (colA w (2 + k)) (colD w (2 + k))
           (worldBeforeRow (inputRows w (length prices)) (snd (sectionsAB w)) k) = (url, wk)"
    and "fst (attemptLoop 0 url wk) = Response 200 html"
    and "regex1_exec html = Some initMatch" and "regex2_exec initMatch = Some ''><''"
  shows "fst (lookupQuote (colA w (2 + k)) url wk) = Inr NaN \<and> prices ! k = NaN
         \<and> notMinusOne (prices ! k)
         \<and> colG (snd (updateMasterList w)) (2 + k) = Numeric NaN"
proof -
  have pp: "parsePage html = Inr NaN"
    using assms(5,6) by (simp add: parsePage_def cleanMatch_def parseFloat_def)
  obtain w' where al: "attemptLoop 0 url wk = (Response 200 html, w')"
    using assms(4) by (cases "attemptLoop 0 url wk") simp
  have lq: "fst (lookupQuote (colA w (2 + k)) url wk) = Inr NaN"
    by (simp add: lookupQuote_def al pp)
  have "fst (lookupRow (colA w (2 + k), colD w (2 + k))
               (worldBeforeRow (inputRows w (length prices)) (snd (sectionsAB w)) k))
          = fst (lookupQuote (colA w (2 + k)) url wk)"
    using assms(3) by (simp add: lookupRow_def Let_def)
  with run_rows(2) [OF assms(1,2)] lq have nan: "prices ! k = NaN" by simp
  from run_columns(2) [OF assms(1), of "2 + k"] assms(2) nan
  have "colG (snd (updateMasterList w)) (2 + k) = Numeric NaN" by simp
  with lq nan show ?thesis by (simp add: notMinusOne_def)
qed

theorem empty_price_overwrites_buffer_witness:
  "fst (collectPrices (exampleWorld (firstCallPage (tutorialSpan [])))) = Inr [NaN, Num (- 1)]
   \<and> regex1_exec (tutorialSpan []) = Some (priceSpan [])
   \<and> regex2_exec (priceSpan []) = Some ''><''
   \<and> colG (exampleWorld (firstCallPage (tutorialSpan []))) 2 = Numeric (Num 28)
   \<and> colG (snd (updateMasterList (exampleWorld (firstCallPage (tutorialSpan []))))) 2 = Numeric NaN"
proof -
  let ?w = "exampleWorld (firstCallPage (tutorialSpan []))"
  let ?before = "worldBeforeRow (inputRows ?w (length [NaN, Num (- 1)])) (snd (sectionsAB ?w)) 0"
  let ?u = "URLFromExchange (colA ?w (2 + 0)) (colD ?w (2 + 0)) ?before"
  have p: "fst (collectPrices ?w) = Inr [NaN, Num (- 1)]"
    by code_simp
  have k: "0 < length [NaN, Num (- 1)]" by simp
  have u: "?u = (fst ?u, snd ?u)" by simp
  have a: "fst (attemptLoop 0 (fst ?u) (snd ?u)) = Response 200 (tutorialSpan [])"
    by code_simp
  have r1: "regex1_exec (tutorialSpan []) = Some (priceSpan [])"
    by code_simp
  have r2: "regex2_exec (priceSpan []) = Some ''><''"
    by code_simp
  have old: "colG ?w 2 = Numeric (Num 28)" by (simp add: exampleWorld_def)
  from empty_price_overwrites_buffer [OF p k u a r1 r2]
  have "colG (snd (updateMasterList ?w)) (2 + 0) = Numeric NaN" by blast
  then have "colG (snd (updateMasterList ?w)) 2 = Numeric NaN" by simp
  with p r1 r2 old show ?thesis by blast
qed

section \<open>The order of the effects\<close>

lemma laterEvents_refl [simp]: "laterEvents w w"
  by (simp add: laterEvents_def)

lemma laterEvents_trans: "laterEvents w w' \<Longrightarrow> laterEvents w' w'' \<Longrightarrow> laterEvents w w''"
  by (auto simp: laterEvents_def)

lemma laterEvents_fetched [simp]: "laterEvents w w' \<Longrightarrow> laterEvents w (fetched url w')"
  by (auto simp: laterEvents_def fetched_def UrlFetchApp_fetch_def)

lemma lookupQuote_laterEvents: "laterEvents w (snd (lookupQuote symbol url w))"
  by (simp add: lookupQuote_world attemptLoop_unfolded Let_def)

lemma URLFromExchange_laterEvents: "laterEvents w (snd (URLFromExchange symbol exchange w))"
  by (simp add: URLFromExchange_def Math_random_def laterEvents_def Let_def split: prod.splits)

lemma lookupRow_laterEvents: "laterEvents w (snd (lookupRow row w))"
proof -
  obtain url w1 where u: "URLFromExchange (fst row) (snd row) w = (url, w1)"
    by (cases "URLFromExchange (fst row) (snd row) w")
  have a: "laterEvents w w1"
    using URLFromExchange_laterEvents [of w "fst row" "snd row"] u by simp
  have b: "laterEvents w1 (snd (lookupQuote (fst row) url w1))"
    by (rule lookupQuote_laterEvents)
  show ?thesis
    using laterEvents_trans [OF a b] u by (simp add: lookupRow_def)
qed

lemma loopD1_laterEvents: "laterEvents w (snd (loopD1 rows w))"
proof (induction rows arbitrary: w)
  case Nil
  show ?case by simp
next
  case (Cons row rows)
  have a: "laterEvents w (snd (lookupRow row w))" by (rule lookupRow_laterEvents)
  have b: "laterEvents (snd (lookupRow row w)) (snd (loopD1 rows (snd (lookupRow row w))))"
    by (rule Cons.IH)
  show ?case
  proof (cases "lookupRow row w")
    case (Pair r w1)
    show ?thesis
    proof (cases r)
      case (Inl e)
      with Pair a show ?thesis by simp
    next
      case (Inr quote)
      obtain r2 w2 where p2: "loopD1 rows w1 = (r2, w2)"
        by (cases "loopD1 rows w1")
      from laterEvents_trans [OF a b] Pair p2 have "laterEvents w w2" by simp
      with Pair Inr p2 show ?thesis by (cases r2) simp_all
    qed
  qed
qed

lemma loopD2_laterEvents: "laterEvents w w' \<Longrightarrow> laterEvents w (loopD2 k ps w')"
proof (induction ps arbitrary: k w')
  case Nil
  then show ?case by simp
next
  case (Cons p ps)
  have "laterEvents w (logEvent (WriteAt (2 + k) 7)
               (w'\<lparr>colG := (colG w')(2 + k := Numeric (parseFloat_array p))\<rparr>))"
    using Cons.prems by (auto simp: laterEvents_def)
  with Cons.prems Cons.IH show ?case by simp
qed

lemma sectionD2_laterEvents: "laterEvents w w' \<Longrightarrow> laterEvents w (sectionD2 prices w')"
  unfolding sectionD2_def
  by (rule loopD2_laterEvents) (auto simp: laterEvents_def)

lemma sectionD2_K2: "K2 (sectionD2 prices w) = K2 w"
  by (simp add: sectionD2_def loopD2_rest)

lemma sectionsAB_start:
  "\<exists>es. trace (snd (sectionsAB w)) = trace w @ [ReadAt 1 11, WriteAt 2 11] @ es
        \<and> WriteAt 2 11 \<notin> set es"
  by (cases "numRows (K1 w)") (simp_all add: sectionsAB_def Let_def)

lemma sectionsAB_fields:
  "K2 (snd (sectionsAB w)) = Text (getTimeNow w)"
  "colF (snd (sectionsAB w)) = colF w" "colG (snd (sectionsAB w)) = colG w"
  by (cases "numRows (K1 w)"; simp add: sectionsAB_def Let_def)+

lemma collectPrices_after_AB:
  "sameSheet (snd (sectionsAB w)) (snd (collectPrices w))
   \<and> laterEvents (snd (sectionsAB w)) (snd (collectPrices w))"
proof (cases "sectionsAB w")
  case (Pair r w1)
  show ?thesis
  proof (cases r)
    case (Inl e)
    with Pair show ?thesis by (simp add: collectPrices_def)
  next
    case (Inr rows)
    with Pair loopD1_sameSheet [of w1 rows] loopD1_laterEvents [of w1 rows]
    show ?thesis by (simp add: collectPrices_def)
  qed
qed

lemma updateMasterList_after:
  "laterEvents (snd (collectPrices w)) (snd (updateMasterList w))
   \<and> K2 (snd (updateMasterList w)) = K2 (snd (collectPrices w))
   \<and> (\<forall>e. fst (updateMasterList w) = Inl e \<longrightarrow> snd (updateMasterList w) = snd (collectPrices w))"
proof (cases "collectPrices w")
  case (Pair r w2)
  show ?thesis
  proof (cases r)
    case (Inl e)
    with Pair show ?thesis by (simp add: updateMasterList_def)
  next
    case (Inr prices)
    with Pair sectionD2_laterEvents [of w2 w2 prices]
    show ?thesis by (simp add: updateMasterList_def sectionD2_K2)
  qed
qed

text \<open>
  Claim C10: in every run, updateMasterList writes the timestamp before it reads the rows
  and before any fetch or write of a price column: after the read of the row count the
  write of cell K2 is the next access of the run, and it happens once. So the timestamp
  is the new one also when a lookup throws and ends the run, and then no price cell has
  changed.
\<close>

theorem timestamp_written_first:
  "(\<exists>rest. trace (snd (updateMasterList w)) = trace w @ [ReadAt 1 11, WriteAt 2 11] @ rest
           \<and> WriteAt 2 11 \<notin> set rest)
   \<and> K2 (snd (updateMasterList w)) = Text (getTimeNow w)
   \<and> (\<forall>e. fst (updateMasterList w) = Inl e \<longrightarrow>
          colF (snd (updateMasterList w)) = colF w \<and> colG (snd (updateMasterList w)) = colG w)"
proof -
  let ?w1 = "snd (sectionsAB w)" and ?w2 = "snd (collectPrices w)"
    and ?w3 = "snd (updateMasterList w)"
  from sectionsAB_start [of w] obtain es where
    es: "trace ?w1 = trace w @ [ReadAt 1 11, WriteAt 2 11] @ es" "WriteAt 2 11 \<notin> set es"
    by blast
  have "laterEvents ?w1 ?w3"
    using collectPrices_after_AB [of w] updateMasterList_after [of w]
    by (blast intro: laterEvents_trans)
  then obtain es' where es': "trace ?w3 = trace ?w1 @ es'" "WriteAt 2 11 \<notin> set es'"
    by (auto simp: laterEvents_def)
  from es es' have
    "trace ?w3 = trace w @ [ReadAt 1 11, WriteAt 2 11] @ (es @ es') \<and> WriteAt 2 11 \<notin> set (es @ es')"
    by simp
  then have a: "\<exists>rest. trace ?w3 = trace w @ [ReadAt 1 11, WriteAt 2 11] @ rest
           \<and> WriteAt 2 11 \<notin> set rest" by blast
  have same: "sameSheet ?w1 ?w2" using collectPrices_after_AB [of w] by simp
  have b: "K2 ?w3 = Text (getTimeNow w)"
    using updateMasterList_after [of w] same by (simp add: sameSheet_def sectionsAB_fields)
  have c: "\<forall>e. fst (updateMasterList w) = Inl e \<longrightarrow> colF ?w3 = colF w \<and> colG ?w3 = colG w"
    using updateMasterList_after [of w] same by (simp add: sameSheet_def sectionsAB_fields)
  from a b c show ?thesis by blast
qed

theorem timestamp_written_first_witness:
  "fst (updateMasterList (exampleWorld (alwaysStatus 200 ''<html></html>''))) = Inl TypeError
   \<and> trace (snd (updateMasterList (exampleWorld (alwaysStatus 200 ''<html></html>''))))
       = [ReadAt 1 11, WriteAt 2 11, ReadAt 2 1, ReadAt 2 4,
          Fetch ''https://finance.yahoo.com/quote/2388.HK?p=500'']
   \<and> K2 (snd (updateMasterList (exampleWorld (alwaysStatus 200 ''<html></html>''))))
       = Text ''9:47:59 PM 1/15/2020''
   \<and> colF (snd (updateMasterList (exampleWorld (alwaysStatus 200 ''<html></html>'')))) 2 = Blank
   \<and> colG (snd (updateMasterList (exampleWorld (alwaysStatus 200 ''<html></html>'')))) 2
       = Numeric (Num 28)"
proof -
  let ?w = "exampleWorld (alwaysStatus 200 ''<html></html>'')"
  have thrown: "fst (updateMasterList ?w) = Inl TypeError"
    by code_simp
  note t = timestamp_written_first [of ?w]
  from t have stamp: "K2 (snd (updateMasterList ?w)) = Text (getTimeNow ?w)" by blast
  from t thrown have cols: "colF (snd (updateMasterList ?w)) = colF ?w"
    "colG (snd (updateMasterList ?w)) = colG ?w" by blast+
  have now: "getTimeNow ?w = ''9:47:59 PM 1/15/2020''"
    by (simp add: getTimeNow_def exampleWorld_def)
  have accesses: "trace (snd (updateMasterList ?w))
       = [ReadAt 1 11, WriteAt 2 11, ReadAt 2 1, ReadAt 2 4,
          Fetch ''https://finance.yahoo.com/quote/2388.HK?p=500'']"
    by code_simp
  from thrown stamp cols now accesses show ?thesis by (simp add: exampleWorld_def)
qed

end
